theory Spec2Isabelle
  imports Complex_Main "HOL-Library.Sublist"
begin

section \<open>Reparameterisation registry\<close>

text \<open>
  The classes the registry hands out. The six library classes are the ones the test module
  imports from \<^verbatim>\<open>nessai.reparameterisations\<close>; \<open>Reparameterisation\<close> is the base
  class itself. A class defined by a caller is \<open>UserClass name inherits\<close>, where
  \<open>inherits\<close> records whether it derives from \<open>Reparameterisation\<close>
  (\<^verbatim>\<open>class TestReparam(Reparameterisation)\<close> against \<^verbatim>\<open>class TestReparam\<close>).
\<close>

datatype pyclass =
    RescaleToBounds
  | Rescale
  | Angle
  | AnglePair
  | ToCartesian
  | NullReparameterisation
  | Reparameterisation
  | UserClass string bool

text \<open>Values stored in a keyword dictionary: \<^verbatim>\<open>True\<close>, \<^verbatim>\<open>'split'\<close>, \<^verbatim>\<open>2.0\<close>.\<close>

datatype kwvalue = KBool bool | KStr string | KFloat real

type_synonym kwargs = "string \<rightharpoonup> kwvalue"

text \<open>What a caller may pass as the identifier: \<^verbatim>\<open>None\<close>, a string, a class, or
  anything else (the test passes the integer \<^verbatim>\<open>2\<close>).\<close>

datatype pyident = PyNone | PyStr string | PyClass pyclass | PyInt int

datatype error =
    ValueError string
  | TypeError string
  | ZeroDivisionError
  | OverflowError

text \<open>
  The table of the test module \<^verbatim>\<open>test_get_reparameterisation.py\<close>
  (\<^verbatim>\<open>known_reparameteristions\<close>), entry by entry: identifier, expected class, expected
  keyword dictionary.
\<close>

definition known_reparameteristions :: "(pyident \<times> pyclass \<times> (string \<times> kwvalue) list) list" where
  "known_reparameteristions =
    [ (PyStr ''default'', RescaleToBounds, []),
      (PyStr ''rescaletobounds'', RescaleToBounds, []),
      (PyStr ''rescale-to-bounds'', RescaleToBounds, []),
      (PyStr ''offset'', RescaleToBounds, [(''offset'', KBool True)]),
      (PyStr ''inversion'', RescaleToBounds,
         [(''detect_edges'', KBool True), (''boundary_inversion'', KBool True),
          (''inversion_type'', KStr ''split'')]),
      (PyStr ''inversion-duplicate'', RescaleToBounds,
         [(''detect_edges'', KBool True), (''boundary_inversion'', KBool True),
          (''inversion_type'', KStr ''duplicate'')]),
      (PyStr ''scale'', Rescale, []),
      (PyStr ''rescale'', Rescale, []),
      (PyStr ''angle'', Angle, []),
      (PyStr ''angle-pi'', Angle, [(''scale'', KFloat 2), (''prior'', KStr ''uniform'')]),
      (PyStr ''angle-2pi'', Angle, [(''scale'', KFloat 1), (''prior'', KStr ''uniform'')]),
      (PyStr ''angle-sine'', Angle, [(''scale'', KFloat 1), (''prior'', KStr ''sine'')]),
      (PyStr ''angle-pair'', AnglePair, []),
      (PyStr ''to-cartesian'', ToCartesian, []),
      (PyStr ''none'', NullReparameterisation, []),
      (PyStr ''null'', NullReparameterisation, []),
      (PyNone, NullReparameterisation, []) ]"

text \<open>
  Modelled from the spec: the module \<^verbatim>\<open>nessai.reparameterisations\<close> (the function
  \<^verbatim>\<open>get_reparameterisation\<close> and its table of defaults) is not among the sources; only
  its test module is. The definitions below follow section 4.1 of the specification.

  The specification asks for a lookup that is case-insensitive and treats \<open>-\<close> and \<open>_\<close>
  as the same separator: \<open>fold_char\<close> maps an ASCII capital to its small letter and
  \<open>_\<close> to \<open>-\<close>, and \<open>normalise_name\<close> applies it to every character.
\<close>

definition fold_char :: "char \<Rightarrow> char" where
  "fold_char c =
     (let n = (of_char c :: nat) in
      if 65 \<le> n \<and> n \<le> 90 then char_of (n + 32)
      else if c = CHR ''_'' then CHR ''-''
      else c)"

definition normalise_name :: "string \<Rightarrow> string" where
  "normalise_name s = map fold_char s"

text \<open>
  Modelled from the spec: the registry itself, a dictionary from a name to a class and
  its default keyword arguments. The specification names the entries for \<open>inversion\<close>,
  \<open>offset\<close>, \<open>inversion-duplicate\<close> and the null names, and says of the angle variants
  that they select a scale and a prior type; the remaining names are the aliases it calls
  the known-alias table.
\<close>

definition default_reparameterisations ::
    "(string \<times> pyclass \<times> (string \<times> kwvalue) list) list" where
  "default_reparameterisations =
    [ (''default'', RescaleToBounds, []),
      (''rescaletobounds'', RescaleToBounds, []),
      (''rescale-to-bounds'', RescaleToBounds, []),
      (''offset'', RescaleToBounds, [(''offset'', KBool True)]),
      (''inversion'', RescaleToBounds,
         [(''detect_edges'', KBool True), (''boundary_inversion'', KBool True),
          (''inversion_type'', KStr ''split'')]),
      (''inversion-duplicate'', RescaleToBounds,
         [(''detect_edges'', KBool True), (''boundary_inversion'', KBool True),
          (''inversion_type'', KStr ''duplicate'')]),
      (''scale'', Rescale, []),
      (''rescale'', Rescale, []),
      (''angle'', Angle, []),
      (''angle-pi'', Angle, [(''scale'', KFloat 2), (''prior'', KStr ''uniform'')]),
      (''angle-2pi'', Angle, [(''scale'', KFloat 1), (''prior'', KStr ''uniform'')]),
      (''angle-sine'', Angle, [(''scale'', KFloat 1), (''prior'', KStr ''sine'')]),
      (''angle-pair'', AnglePair, []),
      (''to-cartesian'', ToCartesian, []),
      (''none'', NullReparameterisation, []),
      (''null'', NullReparameterisation, []) ]"

text \<open>
  Modelled from the spec: the capability check on a class passed directly. A class
  satisfies the capability when it is \<open>Reparameterisation\<close>, one of the library classes
  (all of which derive from it), or a caller's class that derives from it.
\<close>

fun is_reparameterisation :: "pyclass \<Rightarrow> bool" where
  "is_reparameterisation (UserClass name inherits) = inherits"
| "is_reparameterisation c = True"

text \<open>
  Modelled from the spec: the message of the type error, "Reparameterisation must be"
  followed by a description of the capability. The specification fixes the opening words
  only.
\<close>

definition type_error_message :: string where
  "type_error_message =
     ''Reparameterisation must be a str, None, or class that inherits from Reparameterisation''"

text \<open>
  Modelled from the spec: \<open>resolve(identifier) -> (class, kwargs)\<close> of section 4.1, under
  the name the tests call it by. A string is looked up under its normalised form and an
  unknown one raises a value error that quotes the string as it was given; \<open>None\<close> is the
  null reparameterisation; a class is returned as it is when it satisfies the capability;
  everything else raises the type error.
\<close>

fun get_reparameterisation :: "pyident \<Rightarrow> error + (pyclass \<times> kwargs)" where
  "get_reparameterisation (PyStr name) =
     (case map_of default_reparameterisations (normalise_name name) of
        None \<Rightarrow> Inl (ValueError (''Unknown reparameterisation: '' @ name))
      | Some (rc, kw) \<Rightarrow> Inr (rc, map_of kw))"
| "get_reparameterisation PyNone = Inr (NullReparameterisation, Map.empty)"
| "get_reparameterisation (PyClass c) =
     (if is_reparameterisation c then Inr (c, Map.empty)
      else Inl (TypeError type_error_message))"
| "get_reparameterisation (PyInt n) = Inl (TypeError type_error_message)"

text \<open>
  Modelled from the spec: the specification's own words for the lookup (case-insensitive,
  \<open>-\<close> and \<open>_\<close> equivalent), written without reference to \<open>normalise_name\<close>, to
  compare the lookup with. Two characters count as the same letter when they are equal, when one
  is an ASCII capital and the other its small letter, or when both are separators
  (\<open>-\<close> or \<open>_\<close>); two names are the same when they agree letter by letter.
\<close>

definition same_letter :: "char \<Rightarrow> char \<Rightarrow> bool" where
  "same_letter a b =
     (let m = (of_char a :: nat); n = (of_char b :: nat) in
      a = b
      \<or> (65 \<le> m \<and> m \<le> 90 \<and> n = m + 32)
      \<or> (65 \<le> n \<and> n \<le> 90 \<and> m = n + 32)
      \<or> (a \<in> {CHR ''-'', CHR ''_''} \<and> b \<in> {CHR ''-'', CHR ''_''}))"

definition same_name :: "string \<Rightarrow> string \<Rightarrow> bool" where
  "same_name s t = list_all2 same_letter s t"

text \<open>The string identifiers of the test table.\<close>

definition known_names :: "string set" where
  "known_names = {k. PyStr k \<in> fst ` set known_reparameteristions}"

section \<open>Sampling utilities\<close>

subsection \<open>Floating-point values and arrays\<close>

text \<open>
  A \<^verbatim>\<open>float64\<close> is an exact real number, an infinity or NaN. Rounding, overflow of
  finite results and the sign of zero are not modelled. The arithmetic below is numpy's
  elementwise \<^verbatim>\<open>*\<close>, \<^verbatim>\<open>/\<close>, \<^verbatim>\<open>sqrt\<close> and \<^verbatim>\<open>**\<close>: dividing by zero or
  taking the root of a negative number raises nothing, it yields an infinity or NaN.

  Shapes, raised errors and the places where NaN arises do not depend on rounding. An
  equation or a bound on a norm proved below is the exact-arithmetic one: the
  \<^verbatim>\<open>float64\<close> computation meets it up to rounding error, within floating tolerance.
\<close>

datatype npfloat = Num real | PosInf | NegInf | NaN

fun np_neg :: "npfloat \<Rightarrow> npfloat" where
  "np_neg (Num a) = Num (- a)"
| "np_neg PosInf = NegInf"
| "np_neg NegInf = PosInf"
| "np_neg NaN = NaN"

fun np_mul :: "npfloat \<Rightarrow> npfloat \<Rightarrow> npfloat" where
  "np_mul (Num a) (Num b) = Num (a * b)"
| "np_mul NaN y = NaN"
| "np_mul x NaN = NaN"
| "np_mul (Num a) y = (if a = 0 then NaN else if 0 < a then y else np_neg y)"
| "np_mul x (Num b) = (if b = 0 then NaN else if 0 < b then x else np_neg x)"
| "np_mul PosInf y = y"
| "np_mul NegInf y = np_neg y"

fun np_div :: "npfloat \<Rightarrow> npfloat \<Rightarrow> npfloat" where
  "np_div (Num a) (Num b) =
     (if b \<noteq> 0 then Num (a / b)
      else if a = 0 then NaN else if 0 < a then PosInf else NegInf)"
| "np_div NaN y = NaN"
| "np_div x NaN = NaN"
| "np_div (Num a) y = Num 0"
| "np_div x (Num b) = (if 0 \<le> b then x else np_neg x)"
| "np_div x y = NaN"

fun np_sqrt :: "npfloat \<Rightarrow> npfloat" where
  "np_sqrt (Num a) = (if a < 0 then NaN else Num (sqrt a))"
| "np_sqrt PosInf = PosInf"
| "np_sqrt NegInf = NaN"
| "np_sqrt NaN = NaN"

text \<open>\<^verbatim>\<open>x ** e\<close> for a finite base and a finite exponent.\<close>

definition np_power :: "real \<Rightarrow> real \<Rightarrow> npfloat" where
  "np_power x e =
     (if e = 0 then Num 1
      else if 0 < x then Num (x powr e)
      else if x = 0 then (if 0 < e then Num 0 else PosInf)
      else if e = of_int \<lfloor>e\<rfloor> then Num (x powi \<lfloor>e\<rfloor>)
      else NaN)"

text \<open>
  A two-dimensional array is the list of its rows. \<open>has_shape a N dims\<close> says that
  \<open>a\<close> has \<open>N\<close> rows of \<open>dims\<close> entries each.
\<close>

definition has_shape :: "'a list list \<Rightarrow> nat \<Rightarrow> nat \<Rightarrow> bool" where
  "has_shape a N dims = (length a = N \<and> list_all (\<lambda>row. length row = dims) a)"

text \<open>\<^verbatim>\<open>np.sqrt(np.sum(x ** 2., axis=1))\<close> for an array of finite values: one
  Euclidean norm for each row.\<close>

definition euclidean_norm :: "real list \<Rightarrow> real" where
  "euclidean_norm row = sqrt (\<Sum>v\<leftarrow>row. v\<^sup>2)"

definition row_norms :: "real list list \<Rightarrow> real list" where
  "row_norms x = map euclidean_norm x"

text \<open>The Euclidean norm of a row of an output array: a number when every entry is
  finite, nothing when the row holds an infinity or NaN.\<close>

fun the_num :: "npfloat \<Rightarrow> real option" where
  "the_num (Num a) = Some a"
| "the_num x = None"

fun finite_row :: "npfloat list \<Rightarrow> real list option" where
  "finite_row [] = Some []"
| "finite_row (x # xs) =
     (case the_num x of
        None \<Rightarrow> None
      | Some a \<Rightarrow> (case finite_row xs of None \<Rightarrow> None | Some as \<Rightarrow> Some (a # as)))"

definition norm_of :: "npfloat list \<Rightarrow> real option" where
  "norm_of row = map_option euclidean_norm (finite_row row)"

subsection \<open>The random number generator\<close>

text \<open>
  numpy's global generator is not part of the repository, so it is a parameter: a state
  of some type \<open>'g\<close> and the two primitive draws the module uses, each returning a value
  and the next state. \<open>random_sample\<close> is one draw of \<^verbatim>\<open>np.random.random_sample\<close>
  (documented to lie in the half-open interval from 0 to 1) and \<open>standard_normal\<close> one
  draw of \<^verbatim>\<open>np.random.standard_normal\<close>.
\<close>

record 'g random_state =
  random_sample :: "'g \<Rightarrow> real \<times> 'g"
  standard_normal :: "'g \<Rightarrow> real \<times> 'g"

definition unit_interval_samples :: "'g random_state \<Rightarrow> bool" where
  "unit_interval_samples np =
     (\<forall>g. 0 \<le> fst (random_sample np g) \<and> fst (random_sample np g) < 1)"

text \<open>Filling an array in row-major order, one draw for each entry.\<close>

primrec draws :: "('g \<Rightarrow> real \<times> 'g) \<Rightarrow> nat \<Rightarrow> 'g \<Rightarrow> real list \<times> 'g" where
  "draws step 0 g = ([], g)"
| "draws step (Suc n) g =
     (let (v, g1) = step g; (vs, g2) = draws step n g1 in (v # vs, g2))"

primrec draw_rows :: "('g \<Rightarrow> real \<times> 'g) \<Rightarrow> nat \<Rightarrow> nat \<Rightarrow> 'g \<Rightarrow> real list list \<times> 'g" where
  "draw_rows step 0 dims g = ([], g)"
| "draw_rows step (Suc n) dims g =
     (let (row, g1) = draws step dims g; (rows, g2) = draw_rows step n dims g1
      in (row # rows, g2))"

text \<open>\<^verbatim>\<open>np.random.randn(N, dims)\<close>.\<close>

definition randn :: "'g random_state \<Rightarrow> nat \<Rightarrow> nat \<Rightarrow> 'g \<Rightarrow> real list list \<times> 'g" where
  "randn np N dims g = draw_rows (standard_normal np) N dims g"

text \<open>\<^verbatim>\<open>np.random.uniform(low, high, (N, dims))\<close> with finite bounds: each entry is
  \<^verbatim>\<open>low + (high - low) * random_sample()\<close>.\<close>

definition uniform ::
    "'g random_state \<Rightarrow> real \<Rightarrow> real \<Rightarrow> nat \<Rightarrow> nat \<Rightarrow> 'g \<Rightarrow> real list list \<times> 'g" where
  "uniform np low high N dims g =
     (let (s, g1) = draw_rows (random_sample np) N dims g
      in (map (map (\<lambda>u. low + (high - low) * u)) s, g1))"

text \<open>\<^verbatim>\<open>np.random.uniform(low, high, N)\<close> where \<open>high\<close> is a computed value: numpy
  raises \<^verbatim>\<open>OverflowError\<close> when \<^verbatim>\<open>high - low\<close> is not finite.\<close>

definition uniform_1d ::
    "'g random_state \<Rightarrow> real \<Rightarrow> npfloat \<Rightarrow> nat \<Rightarrow> 'g \<Rightarrow> (error + real list) \<times> 'g" where
  "uniform_1d np low high N g =
     (case high of
        Num h \<Rightarrow>
          (let (s, g1) = draws (random_sample np) N g
           in (Inr (map (\<lambda>u. low + (h - low) * u) s), g1))
      | _ \<Rightarrow> (Inl OverflowError, g))"

subsection \<open>The chi distribution\<close>

text \<open>
  \<^verbatim>\<open>scipy.stats.chi\<close> is not part of the repository either. Its distribution function
  and quantile function on finite arguments are the parameters \<open>cdf\<close> and \<open>ppf\<close>
  (degrees of freedom first); what scipy documents for the remaining arguments is
  written out: NaN for degrees of freedom that are not positive and for NaN, the limits
  0 and 1 at the infinities, NaN for a probability outside the unit interval and
  infinity for the probability 1.
\<close>

definition chi_cdf :: "(nat \<Rightarrow> real \<Rightarrow> real) \<Rightarrow> npfloat \<Rightarrow> nat \<Rightarrow> npfloat" where
  "chi_cdf cdf x df =
     (if df = 0 then NaN
      else case x of Num v \<Rightarrow> Num (cdf df v) | PosInf \<Rightarrow> Num 1 | NegInf \<Rightarrow> Num 0 | NaN \<Rightarrow> NaN)"

definition chi_ppf :: "(nat \<Rightarrow> real \<Rightarrow> real) \<Rightarrow> real \<Rightarrow> nat \<Rightarrow> npfloat" where
  "chi_ppf ppf q df =
     (if df = 0 \<or> q < 0 \<or> 1 < q then NaN
      else if q = 1 then PosInf
      else Num (ppf df q))"

subsection \<open>The draw functions of \<^verbatim>\<open>nessai/utils/sampling.py\<close>\<close>

text \<open>
  Every function takes the generator and its state and returns the array together with
  the state it leaves behind. \<open>dims\<close> and \<open>N\<close> are natural numbers; \<open>r\<close>, \<open>fuzz\<close> and
  \<open>var\<close> are finite.
\<close>

definition draw_surface_nsphere ::
    "'g random_state \<Rightarrow> nat \<Rightarrow> real \<Rightarrow> nat \<Rightarrow> 'g \<Rightarrow> npfloat list list \<times> 'g" where
  "draw_surface_nsphere np dims r N g =
     (let (x, g1) = randn np N dims g;
          R = row_norms x;
          z = map2 (\<lambda>row Ri. map (\<lambda>v. np_div (Num v) (Num Ri)) row) x R
      in (map (map (np_mul (Num r))) z, g1))"

text \<open>
  In \<open>draw_nsphere\<close> the array \<open>R\<close> has shape \<open>(N, 1)\<close>; multiplying it with the
  \<open>(N, dims)\<close> array \<open>x\<close> pairs the single entry of each row of \<open>R\<close> with every entry
  of the same row of \<open>x\<close>. \<^verbatim>\<open>1 / dims\<close> raises \<^verbatim>\<open>ZeroDivisionError\<close> for
  \<open>dims = 0\<close>, after both draws have been made.
\<close>

definition draw_nsphere ::
    "'g random_state \<Rightarrow> nat \<Rightarrow> real \<Rightarrow> nat \<Rightarrow> real \<Rightarrow> 'g \<Rightarrow> (error + npfloat list list) \<times> 'g" where
  "draw_nsphere np dims r N fuzz g =
     (let (x, g1) = draw_surface_nsphere np dims 1 N g;
          (R, g2) = uniform np 0 1 N 1 g1
      in if dims = 0 then (Inl ZeroDivisionError, g2)
         else
           (let z = map2 (\<lambda>Rrow xrow.
                      concat (map (\<lambda>u. map (np_mul (np_power u (1 / real dims))) xrow) Rrow))
                    R x
            in (Inr (map (map (np_mul (Num (fuzz * r)))) z), g2)))"

definition draw_uniform ::
    "'g random_state \<Rightarrow> nat \<Rightarrow> 'r \<Rightarrow> nat \<Rightarrow> 'f \<Rightarrow> 'g \<Rightarrow> real list list \<times> 'g" where
  "draw_uniform np dims r N fuzz g = uniform np 0 1 N dims g"

definition draw_gaussian ::
    "'g random_state \<Rightarrow> nat \<Rightarrow> 'r \<Rightarrow> nat \<Rightarrow> 'f \<Rightarrow> 'g \<Rightarrow> real list list \<times> 'g" where
  "draw_gaussian np dims r N fuzz g = randn np N dims g"

text \<open>
  In \<open>draw_truncated_gaussian\<close>, \<^verbatim>\<open>p * x.T / norms\<close> followed by \<^verbatim>\<open>.T\<close> puts
  \<^verbatim>\<open>p[i] * x[i][j] / norms[i]\<close> at row \<open>i\<close>, column \<open>j\<close>.
\<close>

definition draw_truncated_gaussian ::
    "(nat \<Rightarrow> real \<Rightarrow> real) \<Rightarrow> (nat \<Rightarrow> real \<Rightarrow> real) \<Rightarrow> 'g random_state \<Rightarrow>
     nat \<Rightarrow> real \<Rightarrow> nat \<Rightarrow> real \<Rightarrow> real \<Rightarrow> 'g \<Rightarrow> (error + npfloat list list) \<times> 'g" where
  "draw_truncated_gaussian cdf ppf np dims r N fuzz var g =
     (let sigma = np_sqrt (Num var);
          r1 = r * fuzz;
          u_max = chi_cdf cdf (np_div (Num r1) sigma) dims
      in case uniform_1d np 0 u_max N g of
           (Inl e, g1) \<Rightarrow> (Inl e, g1)
         | (Inr u, g1) \<Rightarrow>
             (let p = map (\<lambda>q. np_mul sigma (chi_ppf ppf q dims)) u;
                  (x, g2) = randn np (length p) dims g1;
                  points = map2 (\<lambda>pi (xrow, n). map (\<lambda>v. np_div (np_mul pi (Num v)) (Num n)) xrow)
                             p (zip x (row_norms x))
              in (Inr points, g2)))"

subsection \<open>Calling a draw function with four arguments\<close>

text \<open>
  The parameters of each function, as its \<^verbatim>\<open>def\<close> line lists them. The call
  \<^verbatim>\<open>draw(dims, r, N, fuzz)\<close> passes four arguments; Python raises \<^verbatim>\<open>TypeError\<close>
  when the function called has fewer parameters than that. A parameter that is not
  passed takes its default (\<^verbatim>\<open>var=1\<close>).
\<close>

datatype draw_function =
    DrawSurfaceNsphere
  | DrawNsphere
  | DrawUniform
  | DrawGaussian
  | DrawTruncatedGaussian

fun parameters :: "draw_function \<Rightarrow> string list" where
  "parameters DrawSurfaceNsphere = [''dims'', ''r'', ''N'']"
| "parameters DrawNsphere = [''dims'', ''r'', ''N'', ''fuzz'']"
| "parameters DrawUniform = [''dims'', ''r'', ''N'', ''fuzz'']"
| "parameters DrawGaussian = [''dims'', ''r'', ''N'', ''fuzz'']"
| "parameters DrawTruncatedGaussian = [''dims'', ''r'', ''N'', ''fuzz'', ''var'']"

definition draw ::
    "(nat \<Rightarrow> real \<Rightarrow> real) \<Rightarrow> (nat \<Rightarrow> real \<Rightarrow> real) \<Rightarrow> 'g random_state \<Rightarrow> draw_function \<Rightarrow>
     nat \<Rightarrow> real \<Rightarrow> nat \<Rightarrow> real \<Rightarrow> 'g \<Rightarrow> (error + npfloat list list) \<times> 'g" where
  "draw cdf ppf np f dims r N fuzz g =
     (if length (parameters f) < 4
      then (Inl (TypeError
             ''draw_surface_nsphere() takes from 1 to 3 positional arguments but 4 were given''),
            g)
      else
        (case f of
           DrawNsphere \<Rightarrow> draw_nsphere np dims r N fuzz g
         | DrawUniform \<Rightarrow>
             (let (a, g1) = draw_uniform np dims r N fuzz g in (Inr (map (map Num) a), g1))
         | DrawGaussian \<Rightarrow>
             (let (a, g1) = draw_gaussian np dims r N fuzz g in (Inr (map (map Num) a), g1))
         | DrawTruncatedGaussian \<Rightarrow> draw_truncated_gaussian cdf ppf np dims r N fuzz 1 g
         | DrawSurfaceNsphere \<Rightarrow>
             (let (a, g1) = draw_surface_nsphere np dims r N g in (Inr a, g1))))"

subsection \<open>What the properties need of the parameters\<close>

text \<open>
  The facts about the chi distribution with \<open>df\<close> degrees of freedom that the bound on
  \<open>draw_truncated_gaussian\<close> rests on: the distribution function takes values from 0 up
  to, but not including, 1; the quantile function is monotone below 1, is 0 at 0 and
  undoes the distribution function on the non-negative numbers.
\<close>

definition chi_like :: "(nat \<Rightarrow> real \<Rightarrow> real) \<Rightarrow> (nat \<Rightarrow> real \<Rightarrow> real) \<Rightarrow> nat \<Rightarrow> bool" where
  "chi_like cdf ppf df =
     ((\<forall>y. 0 \<le> cdf df y \<and> cdf df y < 1)
      \<and> (\<forall>q q'. 0 \<le> q \<and> q \<le> q' \<and> q' < 1 \<longrightarrow> ppf df q \<le> ppf df q')
      \<and> ppf df 0 = 0
      \<and> (\<forall>y. 0 \<le> y \<longrightarrow> ppf df (cdf df y) = y))"

text \<open>
  With two degrees of freedom the chi distribution is the Rayleigh distribution, whose
  distribution and quantile functions have closed forms. They serve as the concrete
  instance at \<open>df = 2\<close>.
\<close>

definition chi2_cdf :: "nat \<Rightarrow> real \<Rightarrow> real" where
  "chi2_cdf df y = (if y \<le> 0 then 0 else 1 - exp (- (y\<^sup>2) / 2))"

definition chi2_ppf :: "nat \<Rightarrow> real \<Rightarrow> real" where
  "chi2_ppf df q = sqrt (- 2 * ln (1 - q))"

text \<open>
  A concrete generator: the state is a counter, and both primitive draws read the next
  value of a fixed list, starting over at its end.
\<close>

definition replay :: "real list \<Rightarrow> nat \<Rightarrow> real \<times> nat" where
  "replay vs n = ((if vs = [] then 0 else vs ! (n mod length vs)), Suc n)"

definition replay_generator :: "real list \<Rightarrow> real list \<Rightarrow> nat random_state" where
  "replay_generator us zs = \<lparr> random_sample = replay us, standard_normal = replay zs \<rparr>"

section \<open>Properties of the registry\<close>

lemma of_char_fold_char:
  "(of_char (fold_char c) :: nat) =
     (if 65 \<le> (of_char c :: nat) \<and> (of_char c :: nat) \<le> 90 then of_char c + 32
      else if (of_char c :: nat) = 95 then 45 else of_char c)"
proof -
  have u: "(of_char c :: nat) = 95 \<longleftrightarrow> c = CHR ''_''"
    using of_char_eq_iff [of c "CHR ''_''", where ?'a = nat] by simp
  show ?thesis
    by (auto simp: fold_char_def Let_def u)
qed

lemma same_letter_fold: "same_letter a b \<Longrightarrow> fold_char a = fold_char b"
proof -
  assume h: "same_letter a b"
  have "(of_char (fold_char a) :: nat) = of_char (fold_char b)"
    using h unfolding of_char_fold_char same_letter_def Let_def
    by auto
  then show ?thesis by (simp only: of_char_eq_iff)
qed

lemma same_letter_fold_self: "same_letter c (fold_char c)"
proof -
  have u: "(of_char c :: nat) = 95 \<longleftrightarrow> c = CHR ''_''"
    using of_char_eq_iff [of c "CHR ''_''", where ?'a = nat] by simp
  show ?thesis
    unfolding same_letter_def Let_def of_char_fold_char
    by (auto simp: fold_char_def u)
qed

lemma same_name_normalise: "same_name s t \<Longrightarrow> normalise_name s = normalise_name t"
  unfolding same_name_def normalise_name_def
  by (induction s t rule: list_all2_induct) (simp_all add: same_letter_fold)

lemma same_name_normalise_self: "same_name s (normalise_name s)"
  unfolding same_name_def normalise_name_def
  by (induction s) (simp_all add: same_letter_fold_self)

lemma resolve_normalised:
  assumes "normalise_name s = normalise_name k"
    and "get_reparameterisation (PyStr k) = Inr p"
  shows "get_reparameterisation (PyStr s) = Inr p"
  using assms by (auto split: option.splits)

lemmas eval_name = normalise_name_def fold_char_def default_reparameterisations_def
  char_of_def bit_0

text \<open>
  C1. Every entry of the known-alias table resolves to the class and keyword dictionary
  written beside it: \<open>inversion\<close> to \<open>RescaleToBounds\<close> with \<open>detect_edges\<close>,
  \<open>boundary_inversion\<close> and \<open>inversion_type = split\<close>, the null identifiers \<open>None\<close>,
  \<open>none\<close> and \<open>null\<close> to \<open>NullReparameterisation\<close> with no keyword arguments, and so on.
  For a string key the same pair is returned for every spelling that differs from the key
  only in the case of its letters or in \<open>-\<close> against \<open>_\<close>.
\<close>

theorem known_aliases_resolve:
  assumes "(ident, cls, kw) \<in> set known_reparameteristions"
  shows "get_reparameterisation ident = Inr (cls, map_of kw) \<and>
         (\<forall>k s. ident = PyStr k \<and> same_name s k \<longrightarrow>
                get_reparameterisation (PyStr s) = Inr (cls, map_of kw))"
proof -
  have direct: "get_reparameterisation ident = Inr (cls, map_of kw)"
    using assms unfolding known_reparameteristions_def
    by (auto simp: eval_name)
  show ?thesis
    using direct same_name_normalise resolve_normalised by blast
qed

theorem known_aliases_resolve_witness:
  "get_reparameterisation (PyStr ''inversion'') =
     Inr (RescaleToBounds,
          map_of [(''detect_edges'', KBool True), (''boundary_inversion'', KBool True),
                  (''inversion_type'', KStr ''split'')])
   \<and> get_reparameterisation (PyStr ''Inversion_Duplicate'') =
     Inr (RescaleToBounds,
          map_of [(''detect_edges'', KBool True), (''boundary_inversion'', KBool True),
                  (''inversion_type'', KStr ''duplicate'')])
   \<and> get_reparameterisation PyNone = Inr (NullReparameterisation, Map.empty)"
proof -
  have a: "(PyStr ''inversion'', RescaleToBounds,
            [(''detect_edges'', KBool True), (''boundary_inversion'', KBool True),
             (''inversion_type'', KStr ''split'')]) \<in> set known_reparameteristions"
    by (simp add: known_reparameteristions_def)
  have b: "(PyStr ''inversion-duplicate'', RescaleToBounds,
            [(''detect_edges'', KBool True), (''boundary_inversion'', KBool True),
             (''inversion_type'', KStr ''duplicate'')]) \<in> set known_reparameteristions"
    by (simp add: known_reparameteristions_def)
  have c: "(PyNone, NullReparameterisation, []) \<in> set known_reparameteristions"
    by (simp add: known_reparameteristions_def)
  have s: "same_name ''Inversion_Duplicate'' ''inversion-duplicate''"
    by (simp add: same_name_def same_letter_def)
  show ?thesis
    using known_aliases_resolve [OF a] known_aliases_resolve [OF b] s
      known_aliases_resolve [OF c]
    by simp
qed

text \<open>
  C2. A string that is not a known name (in any spelling the lookup accepts) makes
  \<open>get_reparameterisation\<close> raise a value error and return nothing; the message is
  \<open>Unknown reparameterisation: \<close> followed by the string exactly as it was passed.
\<close>

theorem unknown_name_value_error:
  assumes "\<forall>k \<in> known_names. \<not> same_name s k"
  shows "get_reparameterisation (PyStr s) =
           Inl (ValueError (''Unknown reparameterisation: '' @ s))"
proof -
  have keys: "fst ` set default_reparameterisations \<subseteq> known_names"
    unfolding default_reparameterisations_def known_names_def known_reparameteristions_def
    by (simp add: image_iff)
  have "normalise_name s \<notin> known_names"
    using assms same_name_normalise_self by blast
  then have "map_of default_reparameterisations (normalise_name s) = None"
    using keys by (meson map_of_eq_None_iff subsetD)
  then show ?thesis by simp
qed

theorem unknown_name_value_error_witness:
  "get_reparameterisation (PyStr ''shift'') =
     Inl (ValueError ''Unknown reparameterisation: shift'')"
proof -
  have "\<forall>k \<in> known_names. \<not> same_name ''shift'' k"
    unfolding known_names_def known_reparameteristions_def
    by (simp add: same_name_def same_letter_def image_iff)
  from unknown_name_value_error [OF this] show ?thesis by simp
qed

text \<open>
  C3. An identifier that is not \<open>None\<close>, not a string and not a class satisfying the
  capability makes \<open>get_reparameterisation\<close> raise a type error. The message is one and
  the same for a value that is no class at all (the integer \<open>2\<close>) and for a class that
  does not satisfy the capability, and it begins \<open>Reparameterisation must be\<close>.
\<close>

theorem invalid_identifier_type_error:
  assumes "ident \<noteq> PyNone" and "\<forall>s. ident \<noteq> PyStr s"
    and "\<forall>c. ident = PyClass c \<longrightarrow> \<not> is_reparameterisation c"
  shows "get_reparameterisation ident = Inl (TypeError type_error_message)
         \<and> prefix ''Reparameterisation must be'' type_error_message"
  using assms by (cases ident) (simp_all add: type_error_message_def)

theorem invalid_identifier_type_error_witness:
  "get_reparameterisation (PyInt 2) = Inl (TypeError type_error_message)
   \<and> get_reparameterisation (PyClass (UserClass ''TestReparam'' False)) =
       get_reparameterisation (PyInt 2)"
  using invalid_identifier_type_error [of "PyInt 2"]
    invalid_identifier_type_error [of "PyClass (UserClass ''TestReparam'' False)"]
  by simp

text \<open>
  C4. A class that satisfies the Reparameterisation capability resolves to itself, with
  an empty keyword dictionary.
\<close>

theorem capable_class_resolves_to_itself:
  assumes "is_reparameterisation c"
  shows "get_reparameterisation (PyClass c) = Inr (c, Map.empty)"
  using assms by simp

theorem capable_class_resolves_to_itself_witness:
  "get_reparameterisation (PyClass (UserClass ''TestReparam'' True)) =
     Inr (UserClass ''TestReparam'' True, Map.empty)"
  using capable_class_resolves_to_itself [of "UserClass ''TestReparam'' True"] by simp

section \<open>Properties of the sampling utilities\<close>

subsection \<open>Arrays and draws\<close>

lemma length_draws: "length (fst (draws step n g)) = n"
  by (induction n arbitrary: g) (simp_all add: split_beta Let_def)

lemma draws_all:
  assumes "\<And>h. P (fst (step h))"
  shows "list_all P (fst (draws step n g))"
  using assms by (induction n arbitrary: g) (simp_all add: split_beta Let_def)

lemma length_draw_rows: "length (fst (draw_rows step N dims g)) = N"
  by (induction N arbitrary: g) (simp_all add: split_beta Let_def)

lemma draw_rows_row_length:
  "list_all (\<lambda>row. length row = dims) (fst (draw_rows step N dims g))"
  by (induction N arbitrary: g) (simp_all add: split_beta Let_def length_draws)

lemma draw_rows_all:
  assumes "\<And>h. P (fst (step h))"
  shows "list_all (list_all P) (fst (draw_rows step N dims g))"
  using assms by (induction N arbitrary: g) (simp_all add: split_beta Let_def draws_all)

lemma draw_rows_single:
  "draw_rows step N (Suc 0) g =
     (map (\<lambda>v. [v]) (fst (draws step N g)), snd (draws step N g))"
  by (induction N arbitrary: g) (simp_all add: split_beta Let_def)

lemma has_shape_draw_rows: "has_shape (fst (draw_rows step N dims g)) N dims"
  by (simp add: has_shape_def length_draw_rows draw_rows_row_length)

lemma has_shape_map_rows:
  assumes "has_shape a N dims" and "\<And>row. length (f row) = length row"
  shows "has_shape (map f a) N dims"
  using assms by (simp add: has_shape_def list_all_iff)

lemma has_shape_map2:
  assumes "length us = N" and "has_shape xs N dims"
    and "\<And>u row. length (f u row) = length row"
  shows "has_shape (map2 f us xs) N dims"
  using assms by (auto simp: has_shape_def list_all_iff dest: set_zip_rightD)

lemma has_shape_randn: "has_shape (fst (randn np N dims g)) N dims"
  by (simp add: randn_def has_shape_draw_rows)

lemma length_randn: "length (fst (randn np N dims g)) = N"
  using has_shape_randn [of np N dims g] by (simp add: has_shape_def)

lemma randn_row_length:
  assumes "i < N"
  shows "length (fst (randn np N dims g) ! i) = dims"
  using assms has_shape_randn [of np N dims g]
  by (simp add: has_shape_def list_all_length)

lemma has_shape_uniform: "has_shape (fst (uniform np low high N dims g)) N dims"
  by (simp add: uniform_def split_beta has_shape_map_rows has_shape_draw_rows)

lemma zip_map_same: "zip xs (map k xs) = map (\<lambda>x. (x, k x)) xs"
  by (induction xs) simp_all

lemma map2_broadcast:
  "map2 (\<lambda>Rrow xrow. concat (map (\<lambda>u. f u xrow) Rrow)) (map (\<lambda>u. [u]) us) xs =
   map2 f us xs"
proof (induction us arbitrary: xs)
  case Nil
  show ?case by simp
next
  case (Cons u us)
  then show ?case by (cases xs) simp_all
qed

lemma map2_map_left: "map2 f (map h us) xs = map2 (\<lambda>u x. f (h u) x) us xs"
proof (induction us arbitrary: xs)
  case Nil
  show ?case by simp
next
  case (Cons u us)
  show ?case by (cases xs) (simp_all add: Cons.IH)
qed

lemma map2_nth:
  assumes "i < length us" and "i < length xs"
  shows "map2 f us xs ! i = f (us ! i) (xs ! i)"
  using assms by simp

lemma zip_row_norms:
  "map2 f p (zip x (row_norms x)) = map2 (\<lambda>pi xrow. f pi (xrow, euclidean_norm xrow)) p x"
  unfolding row_norms_def
proof (induction x arbitrary: p)
  case Nil
  show ?case by simp
next
  case (Cons xrow x)
  show ?case by (cases p) (simp_all add: Cons.IH)
qed

lemma uniform_column:
  "fst (uniform np 0 1 N (Suc 0) g) = map (\<lambda>u. [u]) (fst (draws (random_sample np) N g))"
  by (simp add: uniform_def draw_rows_single)

subsection \<open>Norms of rows\<close>

lemma finite_row_Num: "finite_row (map Num vs) = Some vs"
  by (induction vs) simp_all

lemma norm_of_Num: "norm_of (map (\<lambda>v. Num (f v)) vs) = Some (euclidean_norm (map f vs))"
  using finite_row_Num [of "map f vs"] by (simp add: norm_of_def o_def)

lemma euclidean_norm_scale: "euclidean_norm (map (\<lambda>v. c * v) row) = \<bar>c\<bar> * euclidean_norm row"
proof -
  have "(\<Sum>v\<leftarrow>row. (c * v)\<^sup>2) = c\<^sup>2 * (\<Sum>v\<leftarrow>row. v\<^sup>2)"
    by (simp add: power_mult_distrib sum_list_const_mult)
  then show ?thesis
    by (simp add: euclidean_norm_def o_def real_sqrt_mult)
qed

lemma euclidean_norm_nonneg: "0 \<le> euclidean_norm row"
  unfolding euclidean_norm_def by (intro real_sqrt_ge_zero sum_list_nonneg) auto

lemma euclidean_norm_eq_0: "euclidean_norm row = 0 \<longleftrightarrow> (\<forall>v \<in> set row. v = 0)"
proof -
  have "(\<Sum>v\<leftarrow>row. v\<^sup>2) = 0 \<longleftrightarrow> (\<forall>w \<in> set (map (\<lambda>v. v\<^sup>2) row). w = 0)"
    by (rule sum_list_nonneg_eq_0_iff) auto
  then show ?thesis by (auto simp: euclidean_norm_def)
qed

lemma euclidean_norm_unit:
  assumes "\<exists>v \<in> set row. v \<noteq> 0"
  shows "euclidean_norm (map (\<lambda>v. c * (v / euclidean_norm row)) row) = \<bar>c\<bar>"
proof -
  have pos: "0 < euclidean_norm row"
    using assms euclidean_norm_nonneg [of row] euclidean_norm_eq_0 [of row] by force
  have "map (\<lambda>v. c * (v / euclidean_norm row)) row
        = map (\<lambda>v. (c / euclidean_norm row) * v) row"
    by simp
  then have "euclidean_norm (map (\<lambda>v. c * (v / euclidean_norm row)) row)
        = \<bar>c / euclidean_norm row\<bar> * euclidean_norm row"
    by (simp only: euclidean_norm_scale)
  also have "\<dots> = \<bar>c\<bar>" using pos by simp
  finally show ?thesis .
qed

lemma np_power_unit:
  assumes "0 \<le> u" and "0 < e"
  shows "np_power u e = Num (u powr e)"
  using assms by (simp add: np_power_def)

subsection \<open>The two sphere draws\<close>

lemma draw_surface_nsphere_rows:
  "fst (draw_surface_nsphere np dims r N g) =
     map (\<lambda>row. map (\<lambda>v. np_mul (Num r) (np_div (Num v) (Num (euclidean_norm row)))) row)
       (fst (randn np N dims g))"
  unfolding draw_surface_nsphere_def row_norms_def
  by (simp add: split_beta zip_map_same o_def del: np_div.simps np_mul.simps)

lemma draw_surface_nsphere_state:
  "snd (draw_surface_nsphere np dims r N g) = snd (randn np N dims g)"
  unfolding draw_surface_nsphere_def by (simp add: split_beta)

lemma has_shape_draw_surface_nsphere:
  "has_shape (fst (draw_surface_nsphere np dims r N g)) N dims"
  unfolding draw_surface_nsphere_rows
  by (rule has_shape_map_rows [OF has_shape_randn]) simp

lemma draw_surface_nsphere_nth:
  assumes "i < N"
  shows "fst (draw_surface_nsphere np dims r N g) ! i =
     map (\<lambda>v. np_mul (Num r) (np_div (Num v) (Num (euclidean_norm (fst (randn np N dims g) ! i)))))
       (fst (randn np N dims g) ! i)"
  using assms by (simp add: draw_surface_nsphere_rows length_randn del: np_div.simps np_mul.simps)

lemma surface_row_nonzero:
  assumes "\<exists>v \<in> set row. v \<noteq> 0"
  shows "map (\<lambda>v. np_mul (Num r) (np_div (Num v) (Num (euclidean_norm row)))) row
       = map (\<lambda>v. Num (r * (v / euclidean_norm row))) row"
proof -
  have "euclidean_norm row \<noteq> 0"
    using assms euclidean_norm_eq_0 [of row] by blast
  then show ?thesis by simp
qed

lemma surface_row_zero:
  assumes "\<forall>v \<in> set row. v = 0"
  shows "map (\<lambda>v. np_mul (Num r) (np_div (Num v) (Num (euclidean_norm row)))) row
       = replicate (length row) NaN"
proof -
  have "euclidean_norm row = 0"
    using assms euclidean_norm_eq_0 [of row] by blast
  then show ?thesis using assms by (simp add: map_replicate_const [symmetric])
qed

lemma surface_norm:
  assumes "i < N" and "\<exists>v \<in> set (fst (randn np N dims g) ! i). v \<noteq> 0"
  shows "norm_of (fst (draw_surface_nsphere np dims r N g) ! i) = Some \<bar>r\<bar>"
  using assms
  by (simp only: draw_surface_nsphere_nth surface_row_nonzero norm_of_Num euclidean_norm_unit)

lemma draw_nsphere_rows:
  assumes "0 < dims"
  shows "fst (draw_nsphere np dims r N fuzz g) =
     Inr (map2 (\<lambda>u xrow. map (\<lambda>w. np_mul (Num (fuzz * r)) (np_mul (np_power u (1 / real dims)) w)) xrow)
            (fst (draws (random_sample np) N (snd (randn np N dims g))))
            (fst (draw_surface_nsphere np dims 1 N g)))"
proof -
  obtain x g1 where s: "draw_surface_nsphere np dims 1 N g = (x, g1)"
    by (cases "draw_surface_nsphere np dims 1 N g")
  then have g1: "g1 = snd (randn np N dims g)"
    using draw_surface_nsphere_state [of np dims 1 N g] by simp
  obtain R g2 where u: "uniform np 0 1 N (Suc 0) g1 = (R, g2)"
    by (cases "uniform np 0 1 N (Suc 0) g1")
  then have R: "R = map (\<lambda>u. [u]) (fst (draws (random_sample np) N g1))"
    using uniform_column [of np N g1] by simp
  have "fst (draw_nsphere np dims r N fuzz g) =
      Inr (map (map (np_mul (Num (fuzz * r))))
        (map2 (\<lambda>Rrow xrow.
                      concat (map (\<lambda>u. map (np_mul (np_power u (1 / real dims))) xrow) Rrow))
                    R x))"
    using assms unfolding draw_nsphere_def by (simp add: s u Let_def)
  also have "map2 (\<lambda>Rrow xrow.
                      concat (map (\<lambda>u. map (np_mul (np_power u (1 / real dims))) xrow) Rrow))
                    R x = map2 (\<lambda>u xrow. map (np_mul (np_power u (1 / real dims))) xrow)
                     (fst (draws (random_sample np) N g1)) x"
    unfolding R by (rule map2_broadcast)
  finally show ?thesis
    using s by (simp add: g1 o_def split_def)
qed

lemma draw_nsphere_shape:
  assumes "0 < dims"
  shows "\<exists>a. fst (draw_nsphere np dims r N fuzz g) = Inr a \<and> has_shape a N dims"
  unfolding draw_nsphere_rows [OF assms]
  by (simp add: has_shape_map2 length_draws has_shape_draw_surface_nsphere)

lemma nsphere_norm:
  assumes "unit_interval_samples np" and "0 < dims" and "i < N"
    and "\<exists>v \<in> set (fst (randn np N dims g) ! i). v \<noteq> 0"
  shows "\<exists>a n. fst (draw_nsphere np dims r N fuzz g) = Inr a
             \<and> norm_of (a ! i) = Some n \<and> n \<le> \<bar>fuzz * r\<bar>"
proof -
  let ?us = "fst (draws (random_sample np) N (snd (randn np N dims g)))"
  let ?row = "fst (randn np N dims g) ! i"
  let ?e = "1 / real dims"
  let ?a = "map2 (\<lambda>u xrow. map (\<lambda>w. np_mul (Num (fuzz * r)) (np_mul (np_power u ?e) w)) xrow)
            ?us (fst (draw_surface_nsphere np dims 1 N g))"
  have a: "fst (draw_nsphere np dims r N fuzz g) = Inr ?a"
    by (rule draw_nsphere_rows [OF assms(2)])
  have "list_all (\<lambda>u. 0 \<le> u \<and> u < 1) ?us"
    using assms(1) by (intro draws_all) (simp add: unit_interval_samples_def)
  then have u: "0 \<le> ?us ! i" "?us ! i < 1"
    using assms(3) by (simp_all add: list_all_length length_draws)
  have len: "length (fst (draw_surface_nsphere np dims 1 N g)) = N"
    using has_shape_draw_surface_nsphere [of np dims 1 N g] by (simp add: has_shape_def)
  have srow: "fst (draw_surface_nsphere np dims 1 N g) ! i
      = map (\<lambda>v. Num (1 * (v / euclidean_norm ?row))) ?row"
    using assms(3,4) by (simp only: draw_surface_nsphere_nth surface_row_nonzero)
  have pw: "np_power (?us ! i) ?e = Num ((?us ! i) powr ?e)"
    using u(1) assms(2) by (intro np_power_unit) simp_all
  have "?a ! i = map (\<lambda>w. np_mul (Num (fuzz * r)) (np_mul (np_power (?us ! i) ?e) w))
                  (fst (draw_surface_nsphere np dims 1 N g) ! i)"
    using assms(3) by (simp add: len length_draws del: np_mul.simps)
  also have "\<dots> = map (\<lambda>v. Num ((fuzz * r * (?us ! i) powr ?e) * (v / euclidean_norm ?row))) ?row"
    unfolding srow pw by (simp add: o_def mult.assoc)
  finally have row: "?a ! i
      = map (\<lambda>v. Num ((fuzz * r * (?us ! i) powr ?e) * (v / euclidean_norm ?row))) ?row" .
  have n: "norm_of (?a ! i) = Some \<bar>fuzz * r * (?us ! i) powr ?e\<bar>"
    unfolding row using assms(4) by (simp only: norm_of_Num euclidean_norm_unit)
  have "(?us ! i) powr ?e \<le> 1"
    using u by (intro powr_le1) simp_all
  then have "\<bar>fuzz * r * (?us ! i) powr ?e\<bar> \<le> \<bar>fuzz * r\<bar>"
    by (simp add: abs_mult mult_left_le)
  with a n show ?thesis by blast
qed

subsection \<open>The truncated Gaussian\<close>

lemma chi_like_chi2: "chi_like chi2_cdf chi2_ppf 2"
proof -
  have a: "0 \<le> chi2_cdf 2 y \<and> chi2_cdf 2 y < 1" for y
    by (simp add: chi2_cdf_def)
  have b: "chi2_ppf 2 q \<le> chi2_ppf 2 q'" if "0 \<le> q \<and> q \<le> q' \<and> q' < 1" for q q'
  proof -
    have "ln (1 - q') \<le> ln (1 - q)" using that by simp
    then show ?thesis by (simp add: chi2_ppf_def)
  qed
  have c: "chi2_ppf 2 0 = 0" by (simp add: chi2_ppf_def)
  have d: "chi2_ppf 2 (chi2_cdf 2 y) = y" if "0 \<le> y" for y
    using that by (simp add: chi2_ppf_def chi2_cdf_def)
  show ?thesis
    unfolding chi_like_def using a b c d by blast
qed

lemma draw_truncated_gaussian_rows:
  assumes "chi_cdf cdf (np_div (Num (r * fuzz)) (np_sqrt (Num var))) dims = Num U"
  shows "fst (draw_truncated_gaussian cdf ppf np dims r N fuzz var g) =
     Inr (map2 (\<lambda>s xrow. map (\<lambda>v. np_div (np_mul (np_mul (np_sqrt (Num var)) (chi_ppf ppf (U * s) dims)) (Num v))
                                     (Num (euclidean_norm xrow))) xrow)
            (fst (draws (random_sample np) N g))
            (fst (randn np N dims (snd (draws (random_sample np) N g)))))"
proof -
  obtain ss g1 where d: "draws (random_sample np) N g = (ss, g1)"
    by (cases "draws (random_sample np) N g")
  have len: "length ss = N"
    using length_draws [of "random_sample np" N g] d by simp
  have u: "uniform_1d np 0 (Num U) N g = (Inr (map (\<lambda>s. U * s) ss), g1)"
    by (simp add: uniform_1d_def d)
  obtain x g2 where x: "randn np N dims g1 = (x, g2)"
    by (cases "randn np N dims g1")
  show ?thesis
    unfolding draw_truncated_gaussian_def Let_def assms u
    by (simp add: len x d zip_row_norms map2_map_left
        del: np_div.simps np_mul.simps np_sqrt.simps)
qed

lemma truncated_u_max:
  assumes "0 < dims" and "0 < var"
  shows "chi_cdf cdf (np_div (Num (r * fuzz)) (np_sqrt (Num var))) dims
       = Num (cdf dims (r * fuzz / sqrt var))"
  using assms by (simp add: chi_cdf_def)

lemma truncated_gaussian_row:
  assumes "0 < dims" and "0 < var" and "i < N"
  shows "\<exists>a. fst (draw_truncated_gaussian cdf ppf np dims r N fuzz var g) = Inr a \<and>
     a ! i = map (\<lambda>v. np_div (np_mul (np_mul (Num (sqrt var))
               (chi_ppf ppf (cdf dims (r * fuzz / sqrt var) * (fst (draws (random_sample np) N g) ! i)) dims))
               (Num v))
          (Num (euclidean_norm (fst (randn np N dims (snd (draws (random_sample np) N g))) ! i))))
        (fst (randn np N dims (snd (draws (random_sample np) N g))) ! i)"
proof -
  have s: "np_sqrt (Num var) = Num (sqrt var)" using assms(2) by simp
  show ?thesis
    unfolding draw_truncated_gaussian_rows [OF truncated_u_max [OF assms(1,2)]] s
    using assms(3)
    by (simp add: length_draws length_randn del: np_div.simps np_mul.simps)
qed

lemma truncated_gaussian_shape:
  assumes "0 < dims" and "0 < var"
  shows "\<exists>a. fst (draw_truncated_gaussian cdf ppf np dims r N fuzz var g) = Inr a \<and>
     has_shape a N dims"
  unfolding draw_truncated_gaussian_rows [OF truncated_u_max [OF assms(1,2)]]
  by (simp add: has_shape_map2 length_draws has_shape_randn)

lemma truncated_gaussian_zero_row:
  assumes "chi_like cdf ppf dims" and "unit_interval_samples np"
    and "0 < dims" and "0 < var" and "i < N"
    and "\<forall>v \<in> set (fst (randn np N dims (snd (draws (random_sample np) N g))) ! i). v = 0"
  shows "\<exists>a. fst (draw_truncated_gaussian cdf ppf np dims r N fuzz var g) = Inr a
           \<and> a ! i = replicate dims NaN"
proof -
  let ?row = "fst (randn np N dims (snd (draws (random_sample np) N g))) ! i"
  let ?s = "fst (draws (random_sample np) N g) ! i"
  let ?U = "cdf dims (r * fuzz / sqrt var)"
  obtain a where a: "fst (draw_truncated_gaussian cdf ppf np dims r N fuzz var g) = Inr a"
    and row: "a ! i = map (\<lambda>v. np_div (np_mul (np_mul (Num (sqrt var))
               (chi_ppf ppf (?U * ?s) dims)) (Num v)) (Num (euclidean_norm ?row))) ?row"
    using truncated_gaussian_row
      [OF assms(3,4,5), where cdf=cdf and ppf=ppf and np=np and r=r and fuzz=fuzz and g=g]
    by blast
  have "list_all (\<lambda>u. 0 \<le> u \<and> u < 1) (fst (draws (random_sample np) N g))"
    using assms(2) by (intro draws_all) (simp add: unit_interval_samples_def)
  then have s: "0 \<le> ?s" "?s < 1"
    using assms(5) by (simp_all add: list_all_length length_draws)
  have U: "0 \<le> ?U" "?U < 1" using assms(1) by (simp_all add: chi_like_def)
  have q0: "0 \<le> ?U * ?s" using U s by simp
  have qU: "?U * ?s \<le> ?U" using U s by (simp add: mult_left_le)
  have ppf: "chi_ppf ppf (?U * ?s) dims = Num (ppf dims (?U * ?s))"
    using q0 qU U assms(3) by (simp add: chi_ppf_def)
  have z: "euclidean_norm ?row = 0"
    using assms(6) euclidean_norm_eq_0 [of ?row] by blast
  have "a ! i = replicate (length ?row) NaN"
    unfolding row ppf z using assms(6) by (simp add: map_replicate_const [symmetric])
  then show ?thesis
    using a randn_row_length [OF assms(5)] by simp
qed

text \<open>
  What \<open>draw_truncated_gaussian\<close> computes for a row whose Gaussian direction draw is
  not the zero vector, in exact arithmetic: the norm of the row is \<open>sqrt var\<close> times the
  chi quantile of a point of \<open>[0, u_max]\<close>, where \<open>u_max\<close> is the chi distribution
  function at \<open>fuzz * r / sqrt var\<close>, and so it is at most \<open>fuzz * r\<close>. The
  \<^verbatim>\<open>float64\<close> functions of scipy satisfy \<open>chi_like\<close> up to rounding only.
\<close>

lemma truncated_gaussian_norm_exact:
  assumes "chi_like cdf ppf dims" and "unit_interval_samples np"
    and "0 < dims" and "0 < r" and "0 < fuzz" and "0 < var" and "i < N"
    and "\<exists>v \<in> set (fst (randn np N dims (snd (draws (random_sample np) N g))) ! i). v \<noteq> 0"
  shows "\<exists>a n. fst (draw_truncated_gaussian cdf ppf np dims r N fuzz var g) = Inr a
           \<and> norm_of (a ! i) = Some n
           \<and> n = sqrt var * ppf dims (cdf dims (fuzz * r / sqrt var)
                                        * (fst (draws (random_sample np) N g) ! i))
           \<and> n \<le> fuzz * r"
proof -
  let ?row = "fst (randn np N dims (snd (draws (random_sample np) N g))) ! i"
  let ?s = "fst (draws (random_sample np) N g) ! i"
  let ?y = "r * fuzz / sqrt var"
  let ?U = "cdf dims ?y"
  obtain a where a: "fst (draw_truncated_gaussian cdf ppf np dims r N fuzz var g) = Inr a"
    and row: "a ! i = map (\<lambda>v. np_div (np_mul (np_mul (Num (sqrt var))
               (chi_ppf ppf (?U * ?s) dims)) (Num v)) (Num (euclidean_norm ?row))) ?row"
    using truncated_gaussian_row
      [OF assms(3,6,7), where cdf=cdf and ppf=ppf and np=np and r=r and fuzz=fuzz and g=g]
    by blast
  have "list_all (\<lambda>u. 0 \<le> u \<and> u < 1) (fst (draws (random_sample np) N g))"
    using assms(2) by (intro draws_all) (simp add: unit_interval_samples_def)
  then have s: "0 \<le> ?s" "?s < 1"
    using assms(7) by (simp_all add: list_all_length length_draws)
  have sv: "0 < sqrt var" using assms(6) by simp
  have y: "0 \<le> ?y" using assms(4,5) sv by simp
  have U: "0 \<le> ?U" "?U < 1" using assms(1) by (simp_all add: chi_like_def)
  have q0: "0 \<le> ?U * ?s" using U s by simp
  have qU: "?U * ?s \<le> ?U" using U s by (simp add: mult_left_le)
  have ppf: "chi_ppf ppf (?U * ?s) dims = Num (ppf dims (?U * ?s))"
    using q0 qU U assms(3) by (simp add: chi_ppf_def)
  have lo: "0 \<le> ppf dims (?U * ?s)"
    using assms(1) q0 qU U unfolding chi_like_def by (metis order.refl order_le_less_trans)
  have "ppf dims (?U * ?s) \<le> ppf dims ?U"
    using assms(1) q0 qU U unfolding chi_like_def by blast
  also have "\<dots> = ?y" using assms(1) y unfolding chi_like_def by blast
  finally have hi: "ppf dims (?U * ?s) \<le> ?y" .
  have nz: "euclidean_norm ?row \<noteq> 0"
    using assms(8) euclidean_norm_eq_0 [of ?row] by blast
  have "a ! i = map (\<lambda>v. Num ((sqrt var * ppf dims (?U * ?s)) * (v / euclidean_norm ?row))) ?row"
    unfolding row ppf using nz by simp
  then have n: "norm_of (a ! i) = Some \<bar>sqrt var * ppf dims (?U * ?s)\<bar>"
    using assms(8) by (simp only: norm_of_Num euclidean_norm_unit)
  have abs: "\<bar>sqrt var * ppf dims (?U * ?s)\<bar> = sqrt var * ppf dims (?U * ?s)"
    using sv lo by simp
  have "sqrt var * ppf dims (?U * ?s) \<le> sqrt var * ?y"
    using hi sv by (intro mult_left_mono) simp_all
  also have "\<dots> = fuzz * r" using sv by (simp add: mult.commute)
  finally have le: "sqrt var * ppf dims (?U * ?s) \<le> fuzz * r" .
  show ?thesis
    using a n abs le by (simp add: mult.commute [of fuzz r])
qed

subsection \<open>The concrete generator\<close>

lemmas eval_draws = randn_def uniform_def uniform_1d_def replay_generator_def replay_def
  row_norms_def euclidean_norm_def Let_def numeral_2_eq_2

lemma unit_interval_replay:
  assumes "us \<noteq> []" and "list_all (\<lambda>u. 0 \<le> u \<and> u < 1) us"
  shows "unit_interval_samples (replay_generator us zs)"
  using assms
  by (simp add: unit_interval_samples_def replay_generator_def replay_def list_all_length)

lemma truncated_gaussian_norm_exact_instance:
  "\<exists>a n. fst (draw_truncated_gaussian chi2_cdf chi2_ppf (replay_generator [1/2] [3, 4]) 2 1 1 3 4 0) = Inr a
       \<and> norm_of (a ! 0) = Some n
       \<and> n = sqrt 4 * chi2_ppf 2 (chi2_cdf 2 (3 * 1 / sqrt 4)
              * (fst (draws (random_sample (replay_generator [1/2] [3, 4])) 1 0) ! 0))
       \<and> n \<le> 3 * 1"
proof -
  have u: "unit_interval_samples (replay_generator [1/2] [3, 4])"
    by (rule unit_interval_replay) simp_all
  have r: "\<exists>v \<in> set (fst (randn (replay_generator [1/2] [3, 4]) 1 2
              (snd (draws (random_sample (replay_generator [1/2] [3, 4])) 1 0))) ! 0). v \<noteq> 0"
    by (simp add: eval_draws)
  show ?thesis
    using truncated_gaussian_norm_exact [OF chi_like_chi2 u _ _ _ _ _ r, of 1 3 4] by simp
qed

subsection \<open>The claims about the draw functions\<close>

text \<open>
  C5. For positive \<open>N\<close> and positive \<open>dims\<close>, and whatever \<open>r\<close> and \<open>fuzz\<close> are passed,
  each of \<open>draw_uniform\<close>, \<open>draw_gaussian\<close>, \<open>draw_nsphere\<close> and \<open>draw_surface_nsphere\<close>
  returns an array of shape \<open>(N, dims)\<close>.
\<close>

theorem draw_functions_shape:
  assumes "0 < N" and "0 < dims"
  shows "has_shape (fst (draw_uniform np dims r N fuzz g)) N dims
       \<and> has_shape (fst (draw_gaussian np dims r' N fuzz' g)) N dims
       \<and> (\<exists>a. fst (draw_nsphere np dims r1 N fuzz1 g) = Inr a \<and> has_shape a N dims)
       \<and> has_shape (fst (draw_surface_nsphere np dims r2 N g)) N dims"
  using assms
  by (simp add: draw_uniform_def draw_gaussian_def has_shape_uniform has_shape_randn
      draw_nsphere_shape has_shape_draw_surface_nsphere)

theorem draw_functions_shape_witness:
  "has_shape (fst (draw_uniform (replay_generator [1/2] [3, 4]) 2 (1::real) 3 (1::real) 0)) 3 2
   \<and> has_shape (fst (draw_gaussian (replay_generator [1/2] [3, 4]) 2 (1::real) 3 (1::real) 0)) 3 2
   \<and> (\<exists>a. fst (draw_nsphere (replay_generator [1/2] [3, 4]) 2 1 3 1 0) = Inr a \<and> has_shape a 3 2)
   \<and> has_shape (fst (draw_surface_nsphere (replay_generator [1/2] [3, 4]) 2 1 3 0)) 3 2"
  using draw_functions_shape
    [of 3 2 "replay_generator [1/2] [3, 4]" "1::real" "1::real" 0 "1::real" "1::real" 1 1 1]
  by simp

text \<open>
  The claim C6 as it is worded fails twice. A Gaussian row of zeros gives a row of NaN in
  \<open>draw_surface_nsphere\<close>, which has no norm; and \<open>draw_nsphere\<close> with \<open>r = 1\<close> and
  \<open>fuzz = 2\<close> returns a point of norm \<open>3/2\<close>, more than \<open>r\<close>.
\<close>

theorem sphere_norms_counterexample:
  "fst (draw_surface_nsphere (replay_generator [3/4] [0]) 2 1 1 0) = [[NaN, NaN]]
   \<and> norm_of [NaN, NaN] = None
   \<and> fst (draw_nsphere (replay_generator [3/4] [2]) 1 1 1 2 0) = Inr [[Num (3/2)]]
   \<and> norm_of [Num (3/2)] = Some (3/2)
   \<and> \<not> (3/2 \<le> (1::real))"
proof -
  have a: "fst (draw_surface_nsphere (replay_generator [3/4] [0]) 2 1 1 0) = [[NaN, NaN]]"
    by (simp add: draw_surface_nsphere_def eval_draws)
  have b: "norm_of [NaN, NaN] = None"
    by (simp add: norm_of_def)
  have c: "fst (draw_nsphere (replay_generator [3/4] [2]) 1 1 1 2 0) = Inr [[Num (3/2)]]"
    by (simp add: draw_nsphere_def draw_surface_nsphere_def eval_draws np_power_def)
  have "sqrt ((3/2)\<^sup>2) = (3/2 :: real)"
    by (simp only: real_sqrt_abs)
  then have d: "norm_of [Num (3/2)] = Some (3/2)"
    by (simp add: norm_of_def euclidean_norm_def)
  show ?thesis using a b c d by simp
qed

text \<open>
  C6, as amended. In \<open>draw_surface_nsphere\<close> with \<open>dims \<ge> 1\<close> and \<open>r > 0\<close>, every
  row of the result whose underlying Gaussian draw is not the zero vector has Euclidean
  norm \<open>r\<close>, within floating tolerance. In \<open>draw_nsphere\<close>, every such row of the result
  has Euclidean norm at most \<open>|fuzz * r|\<close>, within floating tolerance: the radius of the
  ball is \<open>r\<close> enlarged by the fuzz factor. A row with a Gaussian draw that is not zero
  has at least one entry, so \<open>dims \<ge> 1\<close> and \<open>draw_nsphere\<close> returns. In the exact
  arithmetic of the model the tolerance is zero; the range of the uniform samples is
  numpy's.
\<close>

theorem sphere_norms:
  assumes "i < N" and "\<exists>v \<in> set (fst (randn np N dims g) ! i). v \<noteq> 0"
  shows "(0 < r \<longrightarrow> norm_of (fst (draw_surface_nsphere np dims r N g) ! i) = Some r)
       \<and> (unit_interval_samples np \<longrightarrow>
            (\<exists>a n. fst (draw_nsphere np dims r N fuzz g) = Inr a
                  \<and> norm_of (a ! i) = Some n \<and> n \<le> \<bar>fuzz * r\<bar>))"
proof -
  have "fst (randn np N dims g) ! i \<noteq> []" using assms(2) by auto
  then have dims: "0 < dims"
    using randn_row_length [OF assms(1), of np dims g] by (metis length_greater_0_conv)
  show ?thesis
    using surface_norm [OF assms, of r] nsphere_norm [OF _ dims assms, of r fuzz]
    by auto
qed

theorem sphere_norms_witness:
  "norm_of (fst (draw_surface_nsphere (replay_generator [3/4] [2]) 1 5 1 0) ! 0) = Some 5
   \<and> (\<exists>a n. fst (draw_nsphere (replay_generator [3/4] [2]) 1 5 1 2 0) = Inr a
            \<and> norm_of (a ! 0) = Some n \<and> n \<le> \<bar>2 * 5\<bar>)"
proof -
  have r: "\<exists>v \<in> set (fst (randn (replay_generator [3/4] [2]) 1 1 0) ! 0). v \<noteq> 0"
    by (simp add: eval_draws)
  have u: "unit_interval_samples (replay_generator [3/4] [2])"
    by (rule unit_interval_replay) simp_all
  show ?thesis
    using sphere_norms [OF _ r, of 5 2] u by simp
qed

text \<open>
  The claim C7 as it is worded fails for \<open>draw_surface_nsphere\<close>: called with the four
  arguments it raises a type error.
\<close>

theorem draw_interface_counterexample:
  "fst (draw chi2_cdf chi2_ppf (replay_generator [1/2] [3, 4]) DrawSurfaceNsphere 2 1 1 1 0)
     = Inl (TypeError
         ''draw_surface_nsphere() takes from 1 to 3 positional arguments but 4 were given'')"
  by (simp add: draw_def)

text \<open>
  C7, as amended. Each of \<open>draw_nsphere\<close>, \<open>draw_uniform\<close>, \<open>draw_gaussian\<close> and
  \<open>draw_truncated_gaussian\<close> can be called as \<open>draw(dims, r, N, fuzz)\<close> with
  \<open>dims \<ge> 1\<close> and returns an array of shape \<open>(N, dims)\<close>. \<open>draw_surface_nsphere\<close> is
  not part of the statement: it has the three parameters \<open>dims\<close>, \<open>r\<close> and \<open>N\<close>.
\<close>

theorem draw_interface:
  assumes "f \<noteq> DrawSurfaceNsphere" and "0 < dims"
  shows "\<exists>a. fst (draw cdf ppf np f dims r N fuzz g) = Inr a \<and> has_shape a N dims"
proof (cases f)
  case DrawSurfaceNsphere
  with assms show ?thesis by simp
next
  case DrawNsphere
  then show ?thesis using draw_nsphere_shape [OF assms(2)] by (simp add: draw_def)
next
  case DrawUniform
  then show ?thesis
    by (simp add: draw_def draw_uniform_def split_beta has_shape_map_rows has_shape_uniform)
next
  case DrawGaussian
  then show ?thesis
    by (simp add: draw_def draw_gaussian_def split_beta has_shape_map_rows has_shape_randn)
next
  case DrawTruncatedGaussian
  then show ?thesis
    using truncated_gaussian_shape [OF assms(2), of 1] by (simp add: draw_def)
qed

theorem draw_interface_witness:
  "\<exists>a. fst (draw chi2_cdf chi2_ppf (replay_generator [1/2] [3, 4]) DrawTruncatedGaussian 2 1 3 1 0) = Inr a
      \<and> has_shape a 3 2"
  using draw_interface [of DrawTruncatedGaussian 2] by simp

text \<open>
  C8. The claim: with \<open>dims \<ge> 1\<close>, \<open>r > 0\<close>, \<open>fuzz > 0\<close> and \<open>var > 0\<close>, every row
  of the array \<open>draw_truncated_gaussian\<close> returns has Euclidean norm at most \<open>fuzz * r\<close>.
  The code departs from it where the Gaussian direction draw of a row is the zero vector:
  \<^verbatim>\<open>p * x.T / np.sqrt(np.sum(x**2., axis=1))\<close> divides zero by zero, and the row
  returned is NaN, which has no norm. Here at \<open>dims = 2\<close>, \<open>r = fuzz = var = 1\<close>,
  \<open>N = 1\<close>, with the chi distribution of two degrees of freedom.
\<close>

theorem truncated_gaussian_zero_row_nan:
  "fst (draw_truncated_gaussian chi2_cdf chi2_ppf (replay_generator [1/2] [0]) 2 1 1 1 1 0)
     = Inr [[NaN, NaN]]
   \<and> norm_of [NaN, NaN] = None"
proof -
  have U: "0 \<le> chi2_cdf 2 1" "chi2_cdf 2 1 < 1"
    using chi_like_chi2 by (simp_all add: chi_like_def)
  have "fst (draw_truncated_gaussian chi2_cdf chi2_ppf (replay_generator [1/2] [0]) 2 1 1 1 1 0)
     = Inr [[NaN, NaN]]"
    using U by (simp add: draw_truncated_gaussian_def chi_cdf_def chi_ppf_def eval_draws)
  then show ?thesis by (simp add: norm_of_def)
qed

text \<open>
  C9. \<open>draw_surface_nsphere\<close> divides each row of the Gaussian draw by the row's norm
  without a guard: when row \<open>i\<close> of the draw is the zero vector, every entry of row \<open>i\<close>
  of the result is NaN. The function has no error result; the array is returned.
\<close>

theorem surface_zero_row_nan:
  assumes "i < N" and "\<forall>v \<in> set (fst (randn np N dims g) ! i). v = 0"
  shows "fst (draw_surface_nsphere np dims r N g) ! i = replicate dims NaN"
  using assms
  by (simp only: draw_surface_nsphere_nth surface_row_zero randn_row_length)

theorem surface_zero_row_nan_witness:
  "fst (draw_surface_nsphere (replay_generator [3/4] [0]) 2 5 1 0) ! 0 = [NaN, NaN]"
proof -
  have z: "\<forall>v \<in> set (fst (randn (replay_generator [3/4] [0]) 1 2 0) ! 0). v = 0"
    by (simp add: eval_draws)
  show ?thesis
    using surface_zero_row_nan [OF _ z, of 5] by (simp add: numeral_2_eq_2)
qed

text \<open>
  C10. The result of \<open>draw_uniform\<close>, array and generator state alike, does not depend on
  \<open>r\<close> and \<open>fuzz\<close>: two calls from the same state with the same \<open>dims\<close> and \<open>N\<close>
  return the same array. With a generator whose samples lie in the half-open unit
  interval, every entry is at least 0 and less than 1.
\<close>

theorem draw_uniform_ignores_r_fuzz:
  "draw_uniform np dims r N fuzz g = draw_uniform np dims r' N fuzz' g
   \<and> (unit_interval_samples np \<longrightarrow>
        list_all (list_all (\<lambda>v. 0 \<le> v \<and> v < 1)) (fst (draw_uniform np dims r N fuzz g)))"
proof -
  have "list_all (list_all (\<lambda>v. 0 \<le> v \<and> v < 1)) (fst (draw_rows (random_sample np) N dims g))"
    if "unit_interval_samples np"
    using that by (intro draw_rows_all) (simp add: unit_interval_samples_def)
  then show ?thesis
    by (simp add: draw_uniform_def uniform_def split_beta list_all_iff)
qed

theorem draw_uniform_ignores_r_fuzz_witness:
  "draw_uniform (replay_generator [1/4, 3/4] [2]) 2 (1::real) 2 (1::real) 0
     = draw_uniform (replay_generator [1/4, 3/4] [2]) 2 (7::real) 2 (3::real) 0
   \<and> list_all (list_all (\<lambda>v. 0 \<le> v \<and> v < 1))
        (fst (draw_uniform (replay_generator [1/4, 3/4] [2]) 2 (1::real) 2 (1::real) 0))"
proof -
  have u: "unit_interval_samples (replay_generator [1/4, 3/4] [2])"
    by (rule unit_interval_replay) simp_all
  show ?thesis
    using draw_uniform_ignores_r_fuzz
      [of "replay_generator [1/4, 3/4] [2]" 2 "1::real" 2 "1::real" 0 "7::real" "3::real"] u
    by (simp add: draw_uniform_def)
qed

end
